theory Spec2Isabelle
  imports Main "HOL-Library.AList" "HOL-Library.Sublist" "HOL-Library.Word"
begin

section \<open>Proposals (pkg/secops/types.go)\<close>

text \<open>
  Go strings are byte strings, modelled by \<open>string\<close>. A value of Go's \<open>interface{}\<close>
  (the values of \<open>Details\<close>) is a value of an unspecified type. A \<open>time.Time\<close> is the
  number of nanoseconds since the zero instant, so that \<open>IsZero\<close> is the test for 0.
  \<open>ProposalStatus\<close> is a string type in Go: any string can stand in a \<open>Status\<close> field,
  also the empty one of a struct literal that does not set it.
\<close>

typedecl iface

type_synonym Time = nat

definition IsZero :: "Time \<Rightarrow> bool" where
  "IsZero t = (t = 0)"

type_synonym ProposalStatus = string

definition ProposalStatusPending :: ProposalStatus where
  "ProposalStatusPending = ''pending''"

definition ProposalStatusAccepted :: ProposalStatus where
  "ProposalStatusAccepted = ''accepted''"

definition ProposalStatusIgnored :: ProposalStatus where
  "ProposalStatusIgnored = ''ignored''"

definition ProposalStatusModified :: ProposalStatus where
  "ProposalStatusModified = ''modified''"

text \<open>
  The fields \<open>Label\<close> and \<open>Type\<close> occur in several Go structs; the record fields of
  \<open>ProposalAction\<close> and \<open>Param\<close> carry the struct's name as a prefix.
\<close>

record ProposalAction =
  Action_Label :: string
  Action_Type :: string
  Action_Params :: "string \<rightharpoonup> string"

record Param =
  Param_Key :: string
  Param_Label :: string
  Param_Type :: string
  Param_Value :: string
  Param_Options :: "string list"

record Proposal =
  ID :: string
  Type :: string
  Title :: string
  Summary :: string
  Details :: "string \<rightharpoonup> iface"
  Actions :: "ProposalAction list"
  Parameters :: "string \<rightharpoonup> Param"
  Status :: ProposalStatus
  CreatedAt :: Time
  UpdatedAt :: Time

text \<open>
  \<open>NewProposal\<close> reads the clock twice (\<open>now1\<close>, \<open>now2\<close>) and leaves \<open>ID\<close> at its zero
  value, the empty string.
\<close>

definition NewProposal ::
  "string \<Rightarrow> string \<Rightarrow> string \<Rightarrow> (string \<rightharpoonup> iface) \<Rightarrow> Time \<Rightarrow> Time \<Rightarrow> Proposal" where
  "NewProposal proposalType title summary details now1 now2 =
     \<lparr>ID = [], Type = proposalType, Title = title, Summary = summary, Details = details,
      Actions = [], Parameters = Map.empty, Status = ProposalStatusPending,
      CreatedAt = now1, UpdatedAt = now2\<rparr>"

section \<open>The proposal store (ProposalService in pkg/secops/service.go)\<close>

text \<open>
  The store keeps pointers: \<open>proposals\<close> is a \<open>map[string]*Proposal\<close> and the channel
  carries \<open>*Proposal\<close>. A pointer is an address, and \<open>heap\<close> gives the struct each address
  holds, so that a write through one pointer is seen through every alias of it. The Go
  map is an association list with \<open>AList.update\<close> as the assignment \<open>m[k] = v\<close>; Go leaves
  the iteration order of a map open, so nothing below depends on the order of the list.
  The buffered channel is the list of the pointers waiting in it, with its capacity.
  The operations are modelled as calls that do not overlap: \<open>Accept\<close>, \<open>Ignore\<close>,
  \<open>Resubmit\<close> and \<open>Delete\<close> hold the service's lock from start to end, and \<open>Create\<close>
  holds it for the assignment to the map.
\<close>

type_synonym addr = nat

record state =
  heap :: "addr \<Rightarrow> Proposal"
  proposals :: "(string \<times> addr) list"
  channel :: "addr list"
  channelCap :: nat

datatype panic = NilPointerDereference | CloseOfClosedChannel

datatype error = ProposalNotFound string | ProposalAlreadyProcessed ProposalStatus

fun Error :: "error \<Rightarrow> string" where
  "Error (ProposalNotFound pid) = ''proposal not found: '' @ pid"
| "Error (ProposalAlreadyProcessed st) = ''proposal already processed: '' @ st"

definition NewProposalService :: "(addr \<Rightarrow> Proposal) \<Rightarrow> state" where
  "NewProposalService h = \<lparr>heap = h, proposals = [], channel = [], channelCap = 10\<rparr>"

text \<open>
  \<open>uuid.New().String()\<close>: the 16 bytes of the identifier in the canonical text form,
  lower-case hexadecimal in five groups separated by dashes.
\<close>

type_synonym UUID = "8 word list"

definition hextable :: string where
  "hextable = ''0123456789abcdef''"

fun hexEncode :: "8 word list \<Rightarrow> string" where
  "hexEncode [] = []"
| "hexEncode (v # src) =
     hextable ! (unat v div 16) # hextable ! (unat v mod 16) # hexEncode src"

definition UUID_String :: "UUID \<Rightarrow> string" where
  "UUID_String uuid =
     hexEncode (take 4 uuid) @ ''-'' @ hexEncode (take 2 (drop 4 uuid)) @ ''-'' @
     hexEncode (take 2 (drop 6 uuid)) @ ''-'' @ hexEncode (take 2 (drop 8 uuid)) @ ''-'' @
     hexEncode (drop 10 uuid)"

text \<open>
  \<open>Create\<close> writes through its argument before it takes the lock, so a nil argument
  panics. \<open>uuid\<close> is the value \<open>uuid.New()\<close> returns, \<open>now1\<close> and \<open>now2\<close> are the two
  readings of the clock. The \<open>select\<close> with a \<open>default\<close> branch sends only when the buffer
  has room.
\<close>

definition Create ::
  "state \<Rightarrow> addr option \<Rightarrow> UUID \<Rightarrow> Time \<Rightarrow> Time \<Rightarrow> panic + (string \<times> state)" where
  "Create s proposal uuid now1 now2 =
     (case proposal of
        None \<Rightarrow> Inl NilPointerDereference
      | Some a \<Rightarrow>
          let p0 = heap s a;
              p1 = (if ID p0 = [] then p0\<lparr>ID := UUID_String uuid\<rparr> else p0);
              p2 = (if IsZero (CreatedAt p1) then p1\<lparr>CreatedAt := now1\<rparr> else p1);
              p3 = p2\<lparr>UpdatedAt := now2\<rparr>;
              s1 = s\<lparr>heap := (heap s)(a := p3),
                     proposals := AList.update (ID p3) a (proposals s)\<rparr>;
              s2 = (if length (channel s1) < channelCap s1
                    then s1\<lparr>channel := channel s1 @ [a]\<rparr> else s1)
          in Inr (ID p3, s2))"

definition Get :: "state \<Rightarrow> string \<Rightarrow> addr option" where
  "Get s pid = map_of (proposals s) pid"

definition GetAll :: "state \<Rightarrow> addr list" where
  "GetAll s = map snd (proposals s)"

definition GetPending :: "state \<Rightarrow> addr list" where
  "GetPending s =
     map snd (filter (\<lambda>(k, a). Status (heap s a) = ProposalStatusPending) (proposals s))"

text \<open>
  \<open>Accept\<close> and \<open>Ignore\<close> return Go's \<open>error\<close>: \<open>None\<close> is \<open>nil\<close>. Their \<open>params\<close> are
  only logged. A \<open>map[string]string\<close> argument is the list of its entries in the order
  the runtime iterates them.
\<close>

type_synonym params = "(string \<times> string) list"

definition Accept :: "state \<Rightarrow> string \<Rightarrow> params \<Rightarrow> Time \<Rightarrow> error option \<times> state" where
  "Accept s pid params now =
     (case map_of (proposals s) pid of
        None \<Rightarrow> (Some (ProposalNotFound pid), s)
      | Some a \<Rightarrow>
          let p = heap s a in
          if Status p \<noteq> ProposalStatusPending
          then (Some (ProposalAlreadyProcessed (Status p)), s)
          else (None, s\<lparr>heap := (heap s)
                  (a := p\<lparr>Status := ProposalStatusAccepted, UpdatedAt := now\<rparr>)\<rparr>))"

definition Ignore :: "state \<Rightarrow> string \<Rightarrow> params \<Rightarrow> Time \<Rightarrow> error option \<times> state" where
  "Ignore s pid params now =
     (case map_of (proposals s) pid of
        None \<Rightarrow> (Some (ProposalNotFound pid), s)
      | Some a \<Rightarrow>
          let p = heap s a in
          if Status p \<noteq> ProposalStatusPending
          then (Some (ProposalAlreadyProcessed (Status p)), s)
          else (None, s\<lparr>heap := (heap s)
                  (a := p\<lparr>Status := ProposalStatusIgnored, UpdatedAt := now\<rparr>)\<rparr>))"

text \<open>
  The loop of \<open>Resubmit\<close> over the entries of \<open>params\<close>: an entry whose key the
  proposal's \<open>Parameters\<close> has replaces that parameter's \<open>Value\<close>; any other entry is
  passed over.
\<close>

fun mergeParams :: "params \<Rightarrow> (string \<rightharpoonup> Param) \<Rightarrow> (string \<rightharpoonup> Param)" where
  "mergeParams [] P = P"
| "mergeParams ((key, val) # rest) P =
     mergeParams rest
       (case P key of
          Some param \<Rightarrow> P(key \<mapsto> param\<lparr>Param_Value := val\<rparr>)
        | None \<Rightarrow> P)"

definition Resubmit :: "state \<Rightarrow> string \<Rightarrow> params \<Rightarrow> Time \<Rightarrow> (error + addr) \<times> state" where
  "Resubmit s pid params now =
     (case map_of (proposals s) pid of
        None \<Rightarrow> (Inl (ProposalNotFound pid), s)
      | Some a \<Rightarrow>
          let p = heap s a;
              p1 = p\<lparr>Parameters := mergeParams params (Parameters p)\<rparr>;
              p2 = p1\<lparr>Status := ProposalStatusModified, UpdatedAt := now\<rparr>
          in (Inr a, s\<lparr>heap := (heap s)(a := p2)\<rparr>))"





text \<open>
  Several calls of \<open>Create\<close> in succession, with nothing reading the channel in
  between; the result collects the identifiers returned.
\<close>

fun CreateAll ::
  "state \<Rightarrow> (addr option \<times> UUID \<times> Time \<times> Time) list \<Rightarrow> panic + (string list \<times> state)" where
  "CreateAll s [] = Inr ([], s)"
| "CreateAll s ((proposal, uuid, now1, now2) # rest) =
     (case Create s proposal uuid now1 now2 of
        Inl e \<Rightarrow> Inl e
      | Inr (i, s1) \<Rightarrow>
          (case CreateAll s1 rest of
             Inl e \<Rightarrow> Inl e
           | Inr (ids, s2) \<Rightarrow> Inr (i # ids, s2)))"

section \<open>Schedule parsing (Service.parseSchedule and the head of Service.runActivity)\<close>






text \<open>
  White space, for \<open>fmt\<close>'s scanner and for \<open>strings.TrimSpace\<close> alike, is the set of code
  points U+0009 to U+000D, U+0020, U+0085, U+00A0, U+1680, U+2000 to U+200A, U+2028,
  U+2029, U+202F, U+205F and U+3000. On a byte string these are the following UTF-8
  encodings; the first byte of each is not a continuation byte and the others are, so
  a string starts (or ends) with a white-space code point exactly when one of them is
  a prefix (or suffix) of it.
\<close>

definition spaceEncodings :: "string list" where
  "spaceEncodings =
     [[CHR 0x09], [CHR 0x0A], [CHR 0x0B], [CHR 0x0C], [CHR 0x0D], [CHR 0x20],
      [CHR 0xC2, CHR 0x85], [CHR 0xC2, CHR 0xA0],
      [CHR 0xE1, CHR 0x9A, CHR 0x80],
      [CHR 0xE2, CHR 0x80, CHR 0x80], [CHR 0xE2, CHR 0x80, CHR 0x81],
      [CHR 0xE2, CHR 0x80, CHR 0x82], [CHR 0xE2, CHR 0x80, CHR 0x83],
      [CHR 0xE2, CHR 0x80, CHR 0x84], [CHR 0xE2, CHR 0x80, CHR 0x85],
      [CHR 0xE2, CHR 0x80, CHR 0x86], [CHR 0xE2, CHR 0x80, CHR 0x87],
      [CHR 0xE2, CHR 0x80, CHR 0x88], [CHR 0xE2, CHR 0x80, CHR 0x89],
      [CHR 0xE2, CHR 0x80, CHR 0x8A],
      [CHR 0xE2, CHR 0x80, CHR 0xA8], [CHR 0xE2, CHR 0x80, CHR 0xA9],
      [CHR 0xE2, CHR 0x80, CHR 0xAF],
      [CHR 0xE2, CHR 0x81, CHR 0x9F],
      [CHR 0xE3, CHR 0x80, CHR 0x80]]"

definition spaceRune :: "string \<Rightarrow> nat" where
  "spaceRune s = (case find (\<lambda>e. prefix e s) spaceEncodings of Some e \<Rightarrow> length e | None \<Rightarrow> 0)"

definition spaceRuneLast :: "string \<Rightarrow> nat" where
  "spaceRuneLast s = (case find (\<lambda>e. suffix e s) spaceEncodings of Some e \<Rightarrow> length e | None \<Rightarrow> 0)"

lemma spaceRune_le: "spaceRune s \<le> length s"
proof (cases "find (\<lambda>e. prefix e s) spaceEncodings")
  case None
  then show ?thesis by (simp add: spaceRune_def)
next
  case (Some e)
  then have "prefix e s" by (auto simp: find_Some_iff)
  with Some show ?thesis by (simp add: spaceRune_def prefix_length_le)
qed

lemma spaceRuneLast_le: "spaceRuneLast s \<le> length s"
proof (cases "find (\<lambda>e. suffix e s) spaceEncodings")
  case None
  then show ?thesis by (simp add: spaceRuneLast_def)
next
  case (Some e)
  then have "suffix e s" by (auto simp: find_Some_iff)
  with Some show ?thesis by (simp add: spaceRuneLast_def suffix_length_le)
qed
















section \<open>Template substitution (replaceParams of the two tool adapters)\<close>

text \<open>
  \<open>strings.Split\<close> and \<open>strings.SplitN(_, _, 2)\<close> on a one-byte separator,
  \<open>strings.TrimSpace\<close>, and \<open>strings.ReplaceAll\<close>, which replaces the occurrences of \<open>old\<close>
  from left to right, each search starting behind the last match. Each pattern that
  \<open>replaceParams\<close> builds starts with a brace or a dollar sign; the empty pattern, which
  Go treats on its own, is not among them and \<open>ReplaceAll\<close> answers it with \<open>s\<close>.
\<close>

fun splitFrom :: "string \<Rightarrow> char \<Rightarrow> string \<Rightarrow> string list" where
  "splitFrom [] sep cur = [rev cur]"
| "splitFrom (c # cs) sep cur =
     (if c = sep then rev cur # splitFrom cs sep [] else splitFrom cs sep (c # cur))"

definition Split :: "string \<Rightarrow> char \<Rightarrow> string list" where
  "Split s sep = splitFrom s sep []"

definition SplitN2 :: "string \<Rightarrow> char \<Rightarrow> string list" where
  "SplitN2 s sep =
     (if sep \<in> set s
      then [takeWhile (\<lambda>c. c \<noteq> sep) s, tl (dropWhile (\<lambda>c. c \<noteq> sep) s)]
      else [s])"

function trimLeft :: "string \<Rightarrow> string" where
  "trimLeft s = (if spaceRune s = 0 then s else trimLeft (drop (spaceRune s) s))"
  by pat_completeness auto
termination
proof (relation "measure length")
  fix s :: string
  assume "spaceRune s \<noteq> 0"
  moreover have "spaceRune s \<le> length s" by (rule spaceRune_le)
  ultimately show "(drop (spaceRune s) s, s) \<in> measure length" by simp
qed simp

declare trimLeft.simps [simp del]

function trimRight :: "string \<Rightarrow> string" where
  "trimRight s =
     (if spaceRuneLast s = 0 then s else trimRight (take (length s - spaceRuneLast s) s))"
  by pat_completeness auto
termination
proof (relation "measure length")
  fix s :: string
  assume "spaceRuneLast s \<noteq> 0"
  moreover have "spaceRuneLast s \<le> length s" by (rule spaceRuneLast_le)
  ultimately show "(take (length s - spaceRuneLast s) s, s) \<in> measure length" by simp
qed simp

declare trimRight.simps [simp del]

definition TrimSpace :: "string \<Rightarrow> string" where
  "TrimSpace s = trimRight (trimLeft s)"

function ReplaceAll :: "string \<Rightarrow> string \<Rightarrow> string \<Rightarrow> string" where
  "ReplaceAll s old new =
     (if old = [] \<or> s = [] then s
      else if prefix old s then new @ ReplaceAll (drop (length old) s) old new
      else hd s # ReplaceAll (tl s) old new)"
  by pat_completeness auto
termination
proof (relation "measure (\<lambda>(s, old, new). length s)")
  fix s old new :: string
  assume "\<not> (old = [] \<or> s = [])"
  then show "((drop (length old) s, old, new), (s, old, new))
               \<in> measure (\<lambda>(s, old, new). length s)"
    by simp
  assume "\<not> (old = [] \<or> s = [])"
  then show "((tl s, old, new), (s, old, new)) \<in> measure (\<lambda>(s, old, new). length s)"
    by simp
qed simp

declare ReplaceAll.simps [simp del]

text \<open>
  The first loop of \<open>replaceParams\<close> builds the map \<open>params\<close>; a pair without \<open>=\<close> is
  skipped and a later pair with the same key overwrites an earlier one.
\<close>

definition parseParams :: "string \<Rightarrow> params" where
  "parseParams paramsStr =
     foldl (\<lambda>params pair.
              let kv = SplitN2 pair (CHR ''='')
              in if length kv = 2
                 then AList.update (TrimSpace (kv ! 0)) (TrimSpace (kv ! 1)) params
                 else params)
       [] (Split paramsStr (CHR '',''))"

text \<open>The second loop, over the entries in the order they are iterated.\<close>

fun replaceLoop :: "params \<Rightarrow> string \<Rightarrow> string" where
  "replaceLoop [] result = result"
| "replaceLoop ((k, v) # rest) result =
     replaceLoop rest
       (ReplaceAll
          (ReplaceAll (ReplaceAll result (''{{.'' @ k @ ''}}'') v) (''{{'' @ k @ ''}}'') v)
          (''$'' @ k) v)"

text \<open>
  Go does not fix the order in which \<open>range\<close> visits a map: \<open>order\<close> is the runtime's
  choice, a function that returns the entries of the map in some order.
\<close>

definition SheikahAPI_replaceParams :: "(params \<Rightarrow> params) \<Rightarrow> string \<Rightarrow> string \<Rightarrow> string" where
  "SheikahAPI_replaceParams order template paramsStr =
     (if template = [] \<or> paramsStr = [] then template
      else replaceLoop (order (parseParams paramsStr)) template)"

definition QueryData_replaceParams :: "(params \<Rightarrow> params) \<Rightarrow> string \<Rightarrow> string \<Rightarrow> string" where
  "QueryData_replaceParams order template paramsStr =
     (if paramsStr = [] then template
      else replaceLoop (order (parseParams paramsStr)) template)"

text \<open>The body template of the endpoint \<open>save_api_analysis\<close>, as \<open>initTools\<close> registers it.\<close>

definition save_api_analysis_Body :: string where
  \<open>save_api_analysis_Body =
     ''{"host": "$host", "method": "$method", "path": "$path", "biz_analysis": "$biz_analysis", "importance_analysis": "$importance_analysis", "param_analysis": "$param_analysis", "importance": "$importance", "skip_if_exist": true}''\<close>

section \<open>Starting and stopping the service (Service.Start, Service.Stop)\<close>

text \<open>
  The sequential part of the scheduler. An activity's \<open>stopCh\<close> is never sent on, only
  closed, so the list \<open>activities\<close> keeps for each name whether that channel is closed;
  closing a closed channel panics. \<open>wg\<close> is the counter of the wait group, the number
  of loops that have not returned. A loop returns at its next \<open>select\<close> once the context
  is cancelled or its channel is closed, so \<open>wg.Wait()\<close> is taken to return with the
  counter at 0. A tool is \<open>None\<close> when the field is nil, and else holds whether its HTTP
  client is set. The receiver \<open>s\<close> of both methods may be nil.
\<close>

record ActivityConfig =
  Enabled :: bool
  Schedule :: string
  Mode :: string

record Service =
  config_Activities :: "(string \<times> ActivityConfig) list"
  activities :: "(string \<times> bool) list"
  ctx_Done :: bool
  wg :: nat
  queryTool :: "bool option"
  apiTool :: "bool option"

definition startActivity :: "string \<times> ActivityConfig \<Rightarrow> Service \<Rightarrow> Service" where
  "startActivity entry sv =
     (case entry of (name, actCfg) \<Rightarrow>
        if \<not> Enabled actCfg then sv
        else sv\<lparr>activities := AList.update name False (activities sv), wg := Suc (wg sv)\<rparr>)"

definition Start :: "Service option \<Rightarrow> Service option" where
  "Start s =
     (case s of
        None \<Rightarrow> None
      | Some sv \<Rightarrow> Some (fold startActivity (config_Activities sv) sv))"

fun closeAll :: "(string \<times> bool) list \<Rightarrow> panic + (string \<times> bool) list" where
  "closeAll [] = Inr []"
| "closeAll ((name, closed) # rest) =
     (if closed then Inl CloseOfClosedChannel
      else (case closeAll rest of Inl e \<Rightarrow> Inl e | Inr rest' \<Rightarrow> Inr ((name, True) # rest')))"

definition Close :: "bool option \<Rightarrow> bool option" where
  "Close tool = (case tool of None \<Rightarrow> None | Some client \<Rightarrow> Some False)"

definition Stop :: "Service option \<Rightarrow> panic + Service option" where
  "Stop s =
     (case s of
        None \<Rightarrow> Inr None
      | Some sv \<Rightarrow>
          (case closeAll (activities sv) of
             Inl e \<Rightarrow> Inl e
           | Inr acts \<Rightarrow>
               Inr (Some (sv\<lparr>ctx_Done := True, activities := acts, wg := 0,
                              queryTool := Close (queryTool sv),
                              apiTool := Close (apiTool sv)\<rparr>))))"

text \<open>
  The fields of a proposal other than \<open>Status\<close> and \<open>UpdatedAt\<close>, compared between two
  values of the struct.
\<close>

definition sameButStatus :: "Proposal \<Rightarrow> Proposal \<Rightarrow> bool" where
  "sameButStatus p q =
     (ID q = ID p \<and> Type q = Type p \<and> Title q = Title p \<and> Summary q = Summary p \<and>
      Details q = Details p \<and> Actions q = Actions p \<and> Parameters q = Parameters p \<and>
      CreatedAt q = CreatedAt p)"

text \<open>The identifier \<open>Create\<close> stores a proposal under: its own, or a new one when it has none.\<close>

definition Create_ID :: "Proposal \<Rightarrow> UUID \<Rightarrow> string" where
  "Create_ID p uuid = (if ID p = [] then UUID_String uuid else ID p)"



text \<open>
  A call of \<open>Create\<close> in a sequence of calls: the pointer passed, the value of
  \<open>uuid.New()\<close> and the two readings of the clock. \<open>req_ID h\<close> is the identifier the
  call returns when the proposal is as the heap \<open>h\<close> has it.
\<close>

definition req_ptr :: "addr option \<times> UUID \<times> Time \<times> Time \<Rightarrow> addr" where
  "req_ptr r = the (fst r)"

definition req_uuid :: "addr option \<times> UUID \<times> Time \<times> Time \<Rightarrow> UUID" where
  "req_uuid r = fst (snd r)"

definition req_ID :: "(addr \<Rightarrow> Proposal) \<Rightarrow> addr option \<times> UUID \<times> Time \<times> Time \<Rightarrow> string" where
  "req_ID h r = Create_ID (h (req_ptr r)) (req_uuid r)"

section \<open>Sample data\<close>

text \<open>A store with a pending proposal \<open>p1\<close> and an accepted proposal \<open>p2\<close>.\<close>

definition demo_proposal :: Proposal where
  "demo_proposal = (NewProposal ''risk'' ''title'' ''summary'' Map.empty 1 2)\<lparr>ID := ''p1''\<rparr>"

definition demo_param :: Param where
  "demo_param = \<lparr>Param_Key = ''limit'', Param_Label = ''Limit'', Param_Type = ''number'',
                  Param_Value = ''5'', Param_Options = []\<rparr>"

definition demo_state :: state where
  "demo_state =
     \<lparr>heap = (\<lambda>a. if a = 2
                   then demo_proposal\<lparr>ID := ''p2'', Parameters := [''limit'' \<mapsto> demo_param],
                                       Status := ProposalStatusAccepted\<rparr>
                   else demo_proposal),
      proposals = [(''p1'', 1), (''p2'', 2)], channel = [1, 2], channelCap = 10\<rparr>"

text \<open>
  A proposal written as a struct literal that sets only \<open>Type\<close> and \<open>Title\<close>, and an
  identifier as \<open>uuid.New()\<close> may return it.
\<close>

definition demo_literal :: Proposal where
  "demo_literal =
     \<lparr>ID = [], Type = ''risk'', Title = ''title'', Summary = [], Details = Map.empty,
      Actions = [], Parameters = Map.empty, Status = [], CreatedAt = 0, UpdatedAt = 0\<rparr>"

definition demo_uuid :: UUID where
  "demo_uuid = [0x6b, 0xa7, 0xb8, 0x10, 0x9d, 0xad, 0x41, 0xd1,
                0x80, 0xb4, 0x00, 0xc0, 0x4f, 0xd4, 0x30, 0xc8]"



definition demo_reqs :: "(addr option \<times> UUID \<times> Time \<times> Time) list" where
  "demo_reqs = map (\<lambda>n. (Some n, of_nat n # tl demo_uuid, 5, 6)) [0, 1, 2, 3, 4, 5, 6, 7, 8, 9, 10]"

definition demo_ids :: "string list" where
  "demo_ids = map (\<lambda>c. [CHR ''0'', c] @ ''a7b810-9dad-41d1-80b4-00c04fd430c8'') ''0123456789a''"

text \<open>A heap in which every proposal was written with the identifier \<open>x\<close>.\<close>

definition demo_same :: "addr \<Rightarrow> Proposal" where
  "demo_same a = demo_literal\<lparr>ID := ''x''\<rparr>"

text \<open>A service as \<open>NewService\<close> returns it, with one activity enabled and one disabled.\<close>

definition demo_service :: Service where
  "demo_service =
     \<lparr>config_Activities =
        [(''risk_analysis'', \<lparr>Enabled = True, Schedule = ''30m'', Mode = ''auto''\<rparr>),
         (''weak_analysis'', \<lparr>Enabled = False, Schedule = ''1h'', Mode = ''manual''\<rparr>)],
      activities = [], ctx_Done = False, wg = 0, queryTool = Some True, apiTool = Some True\<rparr>"

section \<open>Accept and Ignore\<close>

lemma Accept_not_found:
  "map_of (proposals s) pid = None \<Longrightarrow> Accept s pid ps now = (Some (ProposalNotFound pid), s)"
  by (simp add: Accept_def)

lemma Ignore_not_found:
  "map_of (proposals s) pid = None \<Longrightarrow> Ignore s pid ps now = (Some (ProposalNotFound pid), s)"
  by (simp add: Ignore_def)

lemma Accept_pending:
  "map_of (proposals s) pid = Some a \<Longrightarrow> Status (heap s a) = ProposalStatusPending \<Longrightarrow>
   Accept s pid ps now =
     (None, s\<lparr>heap := (heap s)(a := (heap s a)\<lparr>Status := ProposalStatusAccepted, UpdatedAt := now\<rparr>)\<rparr>)"
  by (simp add: Accept_def)

lemma Ignore_pending:
  "map_of (proposals s) pid = Some a \<Longrightarrow> Status (heap s a) = ProposalStatusPending \<Longrightarrow>
   Ignore s pid ps now =
     (None, s\<lparr>heap := (heap s)(a := (heap s a)\<lparr>Status := ProposalStatusIgnored, UpdatedAt := now\<rparr>)\<rparr>)"
  by (simp add: Ignore_def)

lemma Accept_processed:
  "map_of (proposals s) pid = Some a \<Longrightarrow> Status (heap s a) \<noteq> ProposalStatusPending \<Longrightarrow>
   Accept s pid ps now = (Some (ProposalAlreadyProcessed (Status (heap s a))), s)"
  by (simp add: Accept_def)

lemma Ignore_processed:
  "map_of (proposals s) pid = Some a \<Longrightarrow> Status (heap s a) \<noteq> ProposalStatusPending \<Longrightarrow>
   Ignore s pid ps now = (Some (ProposalAlreadyProcessed (Status (heap s a))), s)"
  by (simp add: Ignore_def)

lemma status_constants_distinct:
  "ProposalStatusAccepted \<noteq> ProposalStatusPending"
  "ProposalStatusIgnored \<noteq> ProposalStatusPending"
  "ProposalStatusModified \<noteq> ProposalStatusPending"
  by (simp_all add: ProposalStatusAccepted_def ProposalStatusIgnored_def
        ProposalStatusModified_def ProposalStatusPending_def)

text \<open>
  Claim C1. For a stored proposal whose status is pending, \<open>Accept\<close> sets the status to
  accepted and \<open>Ignore\<close> sets it to ignored. Both return the error "proposal not
  found" for an identifier that is not in the store, and leave the store as it was, so
  that \<open>GetAll\<close> returns the same proposals; both return the error "already processed"
  when the status is not pending. So after \<open>Accept\<close> then \<open>Ignore\<close> on one identifier
  (or \<open>Ignore\<close> then \<open>Accept\<close>) the second call fails, changes nothing, and the status
  is the one the first call set.
\<close>

theorem Accept_Ignore_state_machine:
  "(map_of (proposals s) pid = None \<longrightarrow>
      Accept s pid ps now = (Some (ProposalNotFound pid), s) \<and>
      Ignore s pid ps now = (Some (ProposalNotFound pid), s) \<and>
      GetAll (snd (Accept s pid ps now)) = GetAll s \<and>
      GetAll (snd (Ignore s pid ps now)) = GetAll s) \<and>
   (map_of (proposals s) pid = Some a \<and> Status (heap s a) \<noteq> ProposalStatusPending \<longrightarrow>
      Accept s pid ps now = (Some (ProposalAlreadyProcessed (Status (heap s a))), s) \<and>
      Ignore s pid ps now = (Some (ProposalAlreadyProcessed (Status (heap s a))), s)) \<and>
   (map_of (proposals s) pid = Some a \<and> Status (heap s a) = ProposalStatusPending \<longrightarrow>
      fst (Accept s pid ps now) = None \<and>
      Status (heap (snd (Accept s pid ps now)) a) = ProposalStatusAccepted \<and>
      fst (Ignore s pid ps now) = None \<and>
      Status (heap (snd (Ignore s pid ps now)) a) = ProposalStatusIgnored \<and>
      Ignore (snd (Accept s pid ps now)) pid ps' now' =
        (Some (ProposalAlreadyProcessed ProposalStatusAccepted), snd (Accept s pid ps now)) \<and>
      Accept (snd (Ignore s pid ps now)) pid ps' now' =
        (Some (ProposalAlreadyProcessed ProposalStatusIgnored), snd (Ignore s pid ps now)))"
proof (intro conjI impI)
  assume nf: "map_of (proposals s) pid = None"
  show "Accept s pid ps now = (Some (ProposalNotFound pid), s)"
    using nf by (rule Accept_not_found)
  show "Ignore s pid ps now = (Some (ProposalNotFound pid), s)"
    using nf by (rule Ignore_not_found)
  show "GetAll (snd (Accept s pid ps now)) = GetAll s"
    using nf by (simp add: Accept_not_found)
  show "GetAll (snd (Ignore s pid ps now)) = GetAll s"
    using nf by (simp add: Ignore_not_found)
next
  assume "map_of (proposals s) pid = Some a \<and> Status (heap s a) \<noteq> ProposalStatusPending"
  then show "Accept s pid ps now = (Some (ProposalAlreadyProcessed (Status (heap s a))), s)"
    by (simp add: Accept_processed)
next
  assume "map_of (proposals s) pid = Some a \<and> Status (heap s a) \<noteq> ProposalStatusPending"
  then show "Ignore s pid ps now = (Some (ProposalAlreadyProcessed (Status (heap s a))), s)"
    by (simp add: Ignore_processed)
next
  assume p: "map_of (proposals s) pid = Some a \<and> Status (heap s a) = ProposalStatusPending"
  then have A: "Accept s pid ps now =
     (None, s\<lparr>heap := (heap s)(a := (heap s a)\<lparr>Status := ProposalStatusAccepted, UpdatedAt := now\<rparr>)\<rparr>)"
    by (simp add: Accept_pending)
  from p have I: "Ignore s pid ps now =
     (None, s\<lparr>heap := (heap s)(a := (heap s a)\<lparr>Status := ProposalStatusIgnored, UpdatedAt := now\<rparr>)\<rparr>)"
    by (simp add: Ignore_pending)
  show "fst (Accept s pid ps now) = None" by (simp add: A)
  show "Status (heap (snd (Accept s pid ps now)) a) = ProposalStatusAccepted" by (simp add: A)
  show "fst (Ignore s pid ps now) = None" by (simp add: I)
  show "Status (heap (snd (Ignore s pid ps now)) a) = ProposalStatusIgnored" by (simp add: I)
  show "Ignore (snd (Accept s pid ps now)) pid ps' now' =
        (Some (ProposalAlreadyProcessed ProposalStatusAccepted), snd (Accept s pid ps now))"
    using p by (simp add: A Ignore_def status_constants_distinct)
  show "Accept (snd (Ignore s pid ps now)) pid ps' now' =
        (Some (ProposalAlreadyProcessed ProposalStatusIgnored), snd (Ignore s pid ps now))"
    using p by (simp add: I Accept_def status_constants_distinct)
qed

theorem Accept_Ignore_state_machine_witness:
  "Accept demo_state ''zz'' [] 5 = (Some (ProposalNotFound ''zz''), demo_state) \<and>
   Ignore demo_state ''p2'' [] 5 = (Some (ProposalAlreadyProcessed ProposalStatusAccepted), demo_state) \<and>
   Status (heap (snd (Accept demo_state ''p1'' [] 5)) 1) = ProposalStatusAccepted \<and>
   Ignore (snd (Accept demo_state ''p1'' [] 5)) ''p1'' [] 6 =
     (Some (ProposalAlreadyProcessed ProposalStatusAccepted), snd (Accept demo_state ''p1'' [] 5))"
proof -
  have nf: "map_of (proposals demo_state) ''zz'' = None"
    by (simp add: demo_state_def)
  have pr: "map_of (proposals demo_state) ''p2'' = Some 2 \<and>
            Status (heap demo_state 2) \<noteq> ProposalStatusPending"
    by (simp add: demo_state_def status_constants_distinct)
  have pe: "map_of (proposals demo_state) ''p1'' = Some 1 \<and>
            Status (heap demo_state 1) = ProposalStatusPending"
    by (simp add: demo_state_def demo_proposal_def NewProposal_def)
  from nf Accept_Ignore_state_machine [of demo_state "''zz''" "[]" 5 1 "[]" 6]
  have r1: "Accept demo_state ''zz'' [] 5 = (Some (ProposalNotFound ''zz''), demo_state)"
    by blast
  from pr Accept_Ignore_state_machine [of demo_state "''p2''" "[]" 5 2 "[]" 6]
  have r2: "Ignore demo_state ''p2'' [] 5 =
             (Some (ProposalAlreadyProcessed (Status (heap demo_state 2))), demo_state)"
    by blast
  have r2b: "Status (heap demo_state 2) = ProposalStatusAccepted"
    by (simp add: demo_state_def)
  from pe Accept_Ignore_state_machine [of demo_state "''p1''" "[]" 5 1 "[]" 6]
  have r3: "Status (heap (snd (Accept demo_state ''p1'' [] 5)) 1) = ProposalStatusAccepted \<and>
   Ignore (snd (Accept demo_state ''p1'' [] 5)) ''p1'' [] 6 =
     (Some (ProposalAlreadyProcessed ProposalStatusAccepted), snd (Accept demo_state ''p1'' [] 5))"
    by blast
  from r1 r2 r2b r3 show ?thesis by simp
qed

section \<open>The frame of Accept and Ignore\<close>

lemma Accept_cases:
  "Accept s pid ps now = (None, s') \<Longrightarrow>
   \<exists>a. map_of (proposals s) pid = Some a \<and> Status (heap s a) = ProposalStatusPending \<and>
       s' = s\<lparr>heap := (heap s)(a := (heap s a)\<lparr>Status := ProposalStatusAccepted, UpdatedAt := now\<rparr>)\<rparr>"
  by (auto simp: Accept_def Let_def split: option.splits if_splits)

lemma Ignore_cases:
  "Ignore s pid ps now = (None, s') \<Longrightarrow>
   \<exists>a. map_of (proposals s) pid = Some a \<and> Status (heap s a) = ProposalStatusPending \<and>
       s' = s\<lparr>heap := (heap s)(a := (heap s a)\<lparr>Status := ProposalStatusIgnored, UpdatedAt := now\<rparr>)\<rparr>"
  by (auto simp: Ignore_def Let_def split: option.splits if_splits)

lemma Accept_params_unused: "Accept s pid ps now = Accept s pid ps' now"
  by (simp add: Accept_def)

lemma Ignore_params_unused: "Ignore s pid ps now = Ignore s pid ps' now"
  by (simp add: Ignore_def)

text \<open>
  Claim C9. A successful \<open>Accept\<close> or \<open>Ignore\<close> writes only the fields \<open>Status\<close> and
  \<open>UpdatedAt\<close> of the stored proposal: its \<open>ID\<close>, \<open>Type\<close>, \<open>Title\<close>, \<open>Summary\<close>,
  \<open>Details\<close>, \<open>Actions\<close>, \<open>Parameters\<close> and \<open>CreatedAt\<close> are as before, every other
  proposal, the map and the channel are untouched, and the \<open>params\<close> argument has no
  effect on the result.
\<close>

theorem Accept_Ignore_frame:
  "(Accept s pid ps now = (None, s') \<or> Ignore s pid ps now = (None, s') \<longrightarrow>
      (\<forall>b. sameButStatus (heap s b) (heap s' b)) \<and>
      (\<forall>b. map_of (proposals s) pid \<noteq> Some b \<longrightarrow> heap s' b = heap s b) \<and>
      proposals s' = proposals s \<and> channel s' = channel s \<and> channelCap s' = channelCap s) \<and>
   Accept s pid ps now = Accept s pid ps' now \<and>
   Ignore s pid ps now = Ignore s pid ps' now"
proof (intro conjI impI)
  assume "Accept s pid ps now = (None, s') \<or> Ignore s pid ps now = (None, s')"
  then obtain a st where a: "map_of (proposals s) pid = Some a"
    and s': "s' = s\<lparr>heap := (heap s)(a := (heap s a)\<lparr>Status := st, UpdatedAt := now\<rparr>)\<rparr>"
    using Accept_cases Ignore_cases by blast
  show "\<forall>b. sameButStatus (heap s b) (heap s' b)"
    by (simp add: s' sameButStatus_def)
  show "\<forall>b. map_of (proposals s) pid \<noteq> Some b \<longrightarrow> heap s' b = heap s b"
    by (simp add: s' a)
  show "proposals s' = proposals s" by (simp add: s')
  show "channel s' = channel s" by (simp add: s')
  show "channelCap s' = channelCap s" by (simp add: s')
next
  show "Accept s pid ps now = Accept s pid ps' now" by (rule Accept_params_unused)
  show "Ignore s pid ps now = Ignore s pid ps' now" by (rule Ignore_params_unused)
qed

theorem Accept_Ignore_frame_witness:
  "fst (Accept demo_state ''p1'' [(''limit'', ''9'')] 5) = None \<and>
   sameButStatus (heap demo_state 1) (heap (snd (Accept demo_state ''p1'' [(''limit'', ''9'')] 5)) 1) \<and>
   heap (snd (Accept demo_state ''p1'' [(''limit'', ''9'')] 5)) 2 = heap demo_state 2 \<and>
   proposals (snd (Accept demo_state ''p1'' [(''limit'', ''9'')] 5)) = proposals demo_state"
proof -
  have pe: "map_of (proposals demo_state) ''p1'' = Some 1 \<and>
            Status (heap demo_state 1) = ProposalStatusPending"
    by (simp add: demo_state_def demo_proposal_def NewProposal_def)
  then have ok: "fst (Accept demo_state ''p1'' [(''limit'', ''9'')] 5) = None"
    by (simp add: Accept_pending)
  then have "Accept demo_state ''p1'' [(''limit'', ''9'')] 5 =
               (None, snd (Accept demo_state ''p1'' [(''limit'', ''9'')] 5))"
    by (metis prod.collapse)
  with Accept_Ignore_frame [of demo_state "''p1''" "[(''limit'', ''9'')]" 5
      "snd (Accept demo_state ''p1'' [(''limit'', ''9'')] 5)" "[]"]
  have "(\<forall>b. sameButStatus (heap demo_state b)
               (heap (snd (Accept demo_state ''p1'' [(''limit'', ''9'')] 5)) b)) \<and>
        (\<forall>b. map_of (proposals demo_state) ''p1'' \<noteq> Some b \<longrightarrow>
               heap (snd (Accept demo_state ''p1'' [(''limit'', ''9'')] 5)) b = heap demo_state b) \<and>
        proposals (snd (Accept demo_state ''p1'' [(''limit'', ''9'')] 5)) = proposals demo_state"
    by blast
  with pe ok show ?thesis by simp
qed

section \<open>Resubmit\<close>

lemma mergeParams_dom: "dom (mergeParams ps P) = dom P"
proof (induction ps arbitrary: P)
  case Nil
  show ?case by simp
next
  case (Cons e ps)
  obtain key val where e: "e = (key, val)" by (cases e)
  have "dom (case P key of Some param \<Rightarrow> P(key \<mapsto> param\<lparr>Param_Value := val\<rparr>) | None \<Rightarrow> P)
          = dom P"
    by (auto split: option.splits)
  then show ?case by (simp add: e Cons.IH)
qed

lemma mergeParams_absent: "k \<notin> fst ` set ps \<Longrightarrow> mergeParams ps P k = P k"
proof (induction ps arbitrary: P)
  case Nil
  show ?case by simp
next
  case (Cons e ps)
  obtain key val where e: "e = (key, val)" by (cases e)
  from Cons.prems have "k \<noteq> key" and "k \<notin> fst ` set ps" by (auto simp: e)
  then show ?case by (simp add: e Cons.IH split: option.splits)
qed

lemma mergeParams_value:
  "distinct (map fst ps) \<Longrightarrow> P k = Some prm \<Longrightarrow>
   mergeParams ps P k =
     Some (case map_of ps k of Some v \<Rightarrow> prm\<lparr>Param_Value := v\<rparr> | None \<Rightarrow> prm)"
proof (induction ps arbitrary: P)
  case Nil
  then show ?case by simp
next
  case (Cons e ps)
  obtain key val where e: "e = (key, val)" by (cases e)
  from Cons.prems have d: "distinct (map fst ps)" and nk: "key \<notin> fst ` set ps"
    by (auto simp: e)
  show ?case
  proof (cases "k = key")
    case True
    with Cons.prems nk show ?thesis
      by (simp add: e mergeParams_absent)
  next
    case False
    with Cons.prems d show ?thesis
      by (simp add: e Cons.IH split: option.splits)
  qed
qed

text \<open>
  Claim C2. \<open>Resubmit\<close> succeeds on every stored proposal, whatever its status, and
  sets the status to modified. It keeps the key set of \<open>Parameters\<close>: a supplied value
  replaces the \<open>Value\<close> of a parameter the proposal already has, and a name the proposal
  does not have is passed over. Its only error is "proposal not found", returned
  exactly when the identifier is not in the store.
\<close>

theorem Resubmit_any_status:
  "(map_of (proposals s) pid = None \<longrightarrow> Resubmit s pid ps now = (Inl (ProposalNotFound pid), s)) \<and>
   (fst (Resubmit s pid ps now) = Inl e \<longrightarrow>
      e = ProposalNotFound pid \<and> map_of (proposals s) pid = None) \<and>
   (map_of (proposals s) pid = Some a \<longrightarrow>
      fst (Resubmit s pid ps now) = Inr a \<and>
      Status (heap (snd (Resubmit s pid ps now)) a) = ProposalStatusModified \<and>
      dom (Parameters (heap (snd (Resubmit s pid ps now)) a)) = dom (Parameters (heap s a)) \<and>
      (distinct (map fst ps) \<and> Parameters (heap s a) k = Some prm \<longrightarrow>
         Parameters (heap (snd (Resubmit s pid ps now)) a) k =
           Some (case map_of ps k of Some v \<Rightarrow> prm\<lparr>Param_Value := v\<rparr> | None \<Rightarrow> prm)))"
proof (intro conjI impI)
  assume "map_of (proposals s) pid = None"
  then show "Resubmit s pid ps now = (Inl (ProposalNotFound pid), s)"
    by (simp add: Resubmit_def)
next
  assume f: "fst (Resubmit s pid ps now) = Inl e"
  then show "e = ProposalNotFound pid"
    by (simp add: Resubmit_def Let_def split: option.splits)
  from f show "map_of (proposals s) pid = None"
    by (simp add: Resubmit_def Let_def split: option.splits)
next
  assume a: "map_of (proposals s) pid = Some a"
  then have R: "Resubmit s pid ps now =
      (Inr a, s\<lparr>heap := (heap s)(a := (heap s a)
          \<lparr>Parameters := mergeParams ps (Parameters (heap s a)),
            Status := ProposalStatusModified, UpdatedAt := now\<rparr>)\<rparr>)"
    by (simp add: Resubmit_def Let_def)
  show "fst (Resubmit s pid ps now) = Inr a" by (simp add: R)
  show "Status (heap (snd (Resubmit s pid ps now)) a) = ProposalStatusModified" by (simp add: R)
  show "dom (Parameters (heap (snd (Resubmit s pid ps now)) a)) = dom (Parameters (heap s a))"
    by (simp add: R mergeParams_dom)
  assume "distinct (map fst ps) \<and> Parameters (heap s a) k = Some prm"
  then show "Parameters (heap (snd (Resubmit s pid ps now)) a) k =
           Some (case map_of ps k of Some v \<Rightarrow> prm\<lparr>Param_Value := v\<rparr> | None \<Rightarrow> prm)"
    by (simp add: R mergeParams_value)
qed

theorem Resubmit_any_status_witness:
  "fst (Resubmit demo_state ''p2'' [(''limit'', ''9''), (''other'', ''x'')] 7) = Inr 2 \<and>
   Status (heap demo_state 2) = ProposalStatusAccepted \<and>
   Status (heap (snd (Resubmit demo_state ''p2'' [(''limit'', ''9''), (''other'', ''x'')] 7)) 2)
     = ProposalStatusModified \<and>
   dom (Parameters (heap (snd (Resubmit demo_state ''p2'' [(''limit'', ''9''), (''other'', ''x'')] 7)) 2))
     = {''limit''} \<and>
   Parameters (heap (snd (Resubmit demo_state ''p2'' [(''limit'', ''9''), (''other'', ''x'')] 7)) 2) ''limit''
     = Some (demo_param\<lparr>Param_Value := ''9''\<rparr>) \<and>
   Resubmit demo_state ''zz'' [] 7 = (Inl (ProposalNotFound ''zz''), demo_state)"
proof -
  have st: "map_of (proposals demo_state) ''p2'' = Some 2"
    by (simp add: demo_state_def)
  have nf: "map_of (proposals demo_state) ''zz'' = None"
    by (simp add: demo_state_def)
  have pm: "distinct (map fst [(''limit'', ''9''), (''other'', ''x'')]) \<and>
            Parameters (heap demo_state 2) ''limit'' = Some demo_param"
    by (simp add: demo_state_def)
  have d: "dom (Parameters (heap demo_state 2)) = {''limit''}"
    by (simp add: demo_state_def)
  have acc: "Status (heap demo_state 2) = ProposalStatusAccepted"
    by (simp add: demo_state_def)
  from st pm
    Resubmit_any_status [of demo_state "''p2''" "[(''limit'', ''9''), (''other'', ''x'')]" 7
      "ProposalNotFound []" 2 "''limit''" demo_param]
  have r1: "fst (Resubmit demo_state ''p2'' [(''limit'', ''9''), (''other'', ''x'')] 7) = Inr 2 \<and>
   Status (heap (snd (Resubmit demo_state ''p2'' [(''limit'', ''9''), (''other'', ''x'')] 7)) 2)
     = ProposalStatusModified \<and>
   dom (Parameters (heap (snd (Resubmit demo_state ''p2'' [(''limit'', ''9''), (''other'', ''x'')] 7)) 2))
     = dom (Parameters (heap demo_state 2)) \<and>
   Parameters (heap (snd (Resubmit demo_state ''p2'' [(''limit'', ''9''), (''other'', ''x'')] 7)) 2) ''limit''
     = Some (case map_of [(''limit'', ''9''), (''other'', ''x'')] ''limit'' of
               Some v \<Rightarrow> demo_param\<lparr>Param_Value := v\<rparr> | None \<Rightarrow> demo_param)"
    by blast
  from nf Resubmit_any_status [of demo_state "''zz''" "[]" 7 "ProposalNotFound []" 2 "''limit''" demo_param]
  have r2: "Resubmit demo_state ''zz'' [] 7 = (Inl (ProposalNotFound ''zz''), demo_state)"
    by blast
  from r1 r2 d acc show ?thesis by simp
qed

section \<open>Create\<close>

lemma demo_uuid_String: "UUID_String demo_uuid = ''6ba7b810-9dad-41d1-80b4-00c04fd430c8''"
  by (simp add: UUID_String_def demo_uuid_def hextable_def)


lemma Create_Some:
  "Create s (Some a) uuid now1 now2 =
     Inr (Create_ID (heap s a) uuid,
          s\<lparr>heap := (heap s)(a := (heap s a)
                 \<lparr>ID := Create_ID (heap s a) uuid,
                   CreatedAt := (if IsZero (CreatedAt (heap s a)) then now1 else CreatedAt (heap s a)),
                   UpdatedAt := now2\<rparr>),
             proposals := AList.update (Create_ID (heap s a) uuid) a (proposals s),
             channel := (if length (channel s) < channelCap s then channel s @ [a] else channel s)\<rparr>)"
  by (simp add: Create_def Create_ID_def Let_def)


lemma Create_Inr:
  assumes "Create s proposal uuid now1 now2 = Inr (i, s')"
  shows "\<exists>a. proposal = Some a \<and> i = Create_ID (heap s a) uuid \<and>
       s' = s\<lparr>heap := (heap s)(a := (heap s a)
                 \<lparr>ID := i,
                   CreatedAt := (if IsZero (CreatedAt (heap s a)) then now1 else CreatedAt (heap s a)),
                   UpdatedAt := now2\<rparr>),
             proposals := AList.update i a (proposals s),
             channel := (if length (channel s) < channelCap s then channel s @ [a] else channel s)\<rparr>"
proof (cases proposal)
  case None
  with assms show ?thesis by (simp add: Create_def)
next
  case (Some a)
  with assms show ?thesis by (auto simp: Create_Some)
qed

lemma map_of_update_same: "map_of (AList.update k v al) k = Some v"
  by (simp add: update_conv')

text \<open>
  Claim C10. Of the proposal it stores, \<open>Create\<close> writes \<open>ID\<close> only when the incoming
  identifier is empty, \<open>CreatedAt\<close> only when the incoming time is zero, and \<open>UpdatedAt\<close>;
  every other field, \<open>Status\<close> among them, and every other proposal is left as it
  was. So a proposal that comes with the empty status is stored with the empty status,
  not as pending.
\<close>

theorem Create_frame:
  "Create s (Some a) uuid now1 now2 = Inr (i, s') \<longrightarrow>
     Type (heap s' a) = Type (heap s a) \<and> Title (heap s' a) = Title (heap s a) \<and>
     Summary (heap s' a) = Summary (heap s a) \<and> Details (heap s' a) = Details (heap s a) \<and>
     Actions (heap s' a) = Actions (heap s a) \<and> Parameters (heap s' a) = Parameters (heap s a) \<and>
     Status (heap s' a) = Status (heap s a) \<and>
     ID (heap s' a) = (if ID (heap s a) = [] then UUID_String uuid else ID (heap s a)) \<and>
     CreatedAt (heap s' a) =
       (if IsZero (CreatedAt (heap s a)) then now1 else CreatedAt (heap s a)) \<and>
     UpdatedAt (heap s' a) = now2 \<and>
     (\<forall>b. b \<noteq> a \<longrightarrow> heap s' b = heap s b) \<and>
     Get s' i = Some a \<and>
     (Status (heap s a) = [] \<longrightarrow>
        Status (heap s' a) = [] \<and> Status (heap s' a) \<noteq> ProposalStatusPending)"
proof
  assume "Create s (Some a) uuid now1 now2 = Inr (i, s')"
  then have i: "i = Create_ID (heap s a) uuid"
    and s': "s' = s\<lparr>heap := (heap s)(a := (heap s a)
                 \<lparr>ID := i,
                   CreatedAt := (if IsZero (CreatedAt (heap s a)) then now1 else CreatedAt (heap s a)),
                   UpdatedAt := now2\<rparr>),
             proposals := AList.update i a (proposals s),
             channel := (if length (channel s) < channelCap s then channel s @ [a] else channel s)\<rparr>"
    using Create_Inr by blast+
  show "Type (heap s' a) = Type (heap s a) \<and> Title (heap s' a) = Title (heap s a) \<and>
     Summary (heap s' a) = Summary (heap s a) \<and> Details (heap s' a) = Details (heap s a) \<and>
     Actions (heap s' a) = Actions (heap s a) \<and> Parameters (heap s' a) = Parameters (heap s a) \<and>
     Status (heap s' a) = Status (heap s a) \<and>
     ID (heap s' a) = (if ID (heap s a) = [] then UUID_String uuid else ID (heap s a)) \<and>
     CreatedAt (heap s' a) =
       (if IsZero (CreatedAt (heap s a)) then now1 else CreatedAt (heap s a)) \<and>
     UpdatedAt (heap s' a) = now2 \<and>
     (\<forall>b. b \<noteq> a \<longrightarrow> heap s' b = heap s b) \<and>
     Get s' i = Some a \<and>
     (Status (heap s a) = [] \<longrightarrow>
        Status (heap s' a) = [] \<and> Status (heap s' a) \<noteq> ProposalStatusPending)"
    by (simp add: s' i Create_ID_def Get_def map_of_update_same ProposalStatusPending_def)
qed

theorem Create_frame_witness:
  "(\<exists>s'. Create (NewProposalService (\<lambda>a. demo_literal)) (Some 1) demo_uuid 5 6
            = Inr (''6ba7b810-9dad-41d1-80b4-00c04fd430c8'', s') \<and>
         Title (heap s' 1) = ''title'' \<and> Status (heap s' 1) = [] \<and>
         CreatedAt (heap s' 1) = 5 \<and> UpdatedAt (heap s' 1) = 6 \<and>
         Get s' ''6ba7b810-9dad-41d1-80b4-00c04fd430c8'' = Some 1 \<and>
         Status (heap s' 1) \<noteq> ProposalStatusPending)"
proof -
  let ?s = "NewProposalService (\<lambda>a. demo_literal)"
  have "\<exists>s'. Create ?s (Some 1) demo_uuid 5 6
            = Inr (''6ba7b810-9dad-41d1-80b4-00c04fd430c8'', s')"
    by (simp add: Create_Some Create_ID_def NewProposalService_def demo_literal_def demo_uuid_String)
  then obtain s' where c: "Create ?s (Some 1) demo_uuid 5 6
            = Inr (''6ba7b810-9dad-41d1-80b4-00c04fd430c8'', s')" ..
  have h: "heap ?s 1 = demo_literal" by (simp add: NewProposalService_def)
  from c Create_frame [of ?s 1 demo_uuid 5 6 "''6ba7b810-9dad-41d1-80b4-00c04fd430c8''" s']
  have "Title (heap s' 1) = ''title'' \<and> Status (heap s' 1) = [] \<and>
         CreatedAt (heap s' 1) = 5 \<and> UpdatedAt (heap s' 1) = 6 \<and>
         Get s' ''6ba7b810-9dad-41d1-80b4-00c04fd430c8'' = Some 1 \<and>
         Status (heap s' 1) \<noteq> ProposalStatusPending"
    by (simp add: NewProposalService_def demo_literal_def IsZero_def ProposalStatusPending_def)
  with c show ?thesis by blast
qed




section \<open>Identifiers of stored proposals\<close>


















section \<open>Notifications\<close>

lemma take_take_append: "take n (take n xs @ ys) = take n (xs @ ys)"
  by (cases "length xs \<le> n") (simp_all add: min_def)

lemma Create_props:
  assumes "Create s proposal uuid now1 now2 = Inr (i, s1)"
  shows "\<exists>a. proposal = Some a \<and> proposals s1 = AList.update i a (proposals s) \<and>
             channel s1 = (if length (channel s) < channelCap s then channel s @ [a] else channel s) \<and>
             channelCap s1 = channelCap s"
  using Create_Inr [OF assms] by auto

lemma CreateAll_Cons:
  assumes "CreateAll s ((proposal, uuid, now1, now2) # rest) = Inr (ids, s')"
  shows "\<exists>i s1 ids'. Create s proposal uuid now1 now2 = Inr (i, s1) \<and>
           CreateAll s1 rest = Inr (ids', s') \<and> ids = i # ids'"
  using assms by (auto split: sum.splits)

lemma CreateAll_props:
  "CreateAll s reqs = Inr (ids, s') \<Longrightarrow>
   length ids = length reqs \<and>
   fst ` set (proposals s') = fst ` set (proposals s) \<union> set ids \<and>
   (distinct (map fst (proposals s)) \<longrightarrow> distinct (map fst (proposals s'))) \<and>
   channelCap s' = channelCap s \<and>
   (length (channel s) \<le> channelCap s \<longrightarrow>
      channel s' = take (channelCap s) (channel s @ map (\<lambda>r. the (fst r)) reqs))"
proof (induction reqs arbitrary: s ids)
  case Nil
  then show ?case by simp
next
  case (Cons r rest)
  obtain proposal uuid now1 now2 where r: "r = (proposal, uuid, now1, now2)"
    by (cases r) auto
  from Cons.prems obtain i s1 ids' where c: "Create s proposal uuid now1 now2 = Inr (i, s1)"
    and rest: "CreateAll s1 rest = Inr (ids', s')" and ids: "ids = i # ids'"
    unfolding r using CreateAll_Cons by blast
  from Create_props [OF c] obtain a where a: "proposal = Some a"
    and p1: "proposals s1 = AList.update i a (proposals s)"
    and c1: "channel s1 = (if length (channel s) < channelCap s then channel s @ [a] else channel s)"
    and cap1: "channelCap s1 = channelCap s"
    by blast
  note IH = Cons.IH [OF rest]
  have 1: "length ids = length (r # rest)" using IH by (simp add: ids)
  have 2: "fst ` set (proposals s') = fst ` set (proposals s) \<union> set ids"
    using IH by (simp add: ids p1 dom_update)
  have 3: "distinct (map fst (proposals s)) \<longrightarrow> distinct (map fst (proposals s'))"
    using IH by (simp add: p1 distinct_update)
  have 4: "channelCap s' = channelCap s" using IH by (simp add: cap1)
  have 5: "channel s' = take (channelCap s) (channel s @ map (\<lambda>r. the (fst r)) (r # rest))"
    if le: "length (channel s) \<le> channelCap s"
  proof -
    from le have t: "channel s1 = take (channelCap s) (channel s @ [a])"
      by (simp add: c1)
    then have "length (channel s1) \<le> channelCap s1" by (simp add: cap1)
    with IH have "channel s' = take (channelCap s) (channel s1 @ map (\<lambda>r. the (fst r)) rest)"
      by (simp add: cap1)
    then show ?thesis
      by (simp only: t take_take_append) (simp add: r a)
  qed
  from 1 2 3 4 5 show ?case by blast
qed

lemma CreateAll_total:
  "list_all (\<lambda>r. fst r \<noteq> None) reqs \<Longrightarrow> \<exists>ids s'. CreateAll s reqs = Inr (ids, s')"
proof (induction reqs arbitrary: s)
  case Nil
  show ?case by simp
next
  case (Cons r rest)
  obtain proposal uuid now1 now2 where r: "r = (proposal, uuid, now1, now2)"
    by (cases r) auto
  from Cons.prems obtain a where a: "proposal = Some a" by (auto simp: r)
  obtain i s1 where c: "Create s (Some a) uuid now1 now2 = Inr (i, s1)"
    by (simp add: Create_Some)
  from Cons.prems have "list_all (\<lambda>r. fst r \<noteq> None) rest" by simp
  then obtain ids s' where "CreateAll s1 rest = Inr (ids, s')"
    using Cons.IH by blast
  with c show ?case by (simp add: r a)
qed

lemma CreateAll_Some:
  "CreateAll s ((Some a, uuid, now1, now2) # rest) =
     (case CreateAll (snd (projr (Create s (Some a) uuid now1 now2))) rest of
        Inl e \<Rightarrow> Inl e
      | Inr (ids, s2) \<Rightarrow> Inr (fst (projr (Create s (Some a) uuid now1 now2)) # ids, s2))"
proof -
  obtain i s1 where c: "Create s (Some a) uuid now1 now2 = Inr (i, s1)"
    by (simp add: Create_Some)
  show ?thesis by (simp add: c split: sum.splits)
qed

lemma demo_uuid_String_variant:
  "UUID_String (v # tl demo_uuid) = hexEncode [v] @ ''a7b810-9dad-41d1-80b4-00c04fd430c8''"
  by (simp add: demo_uuid_def UUID_String_def hextable_def)

lemma update_fresh: "k \<notin> fst ` set al \<Longrightarrow> AList.update k v al = al @ [(k, v)]"
  by (induction al) auto

lemma CreateAll_fresh:
  assumes "list_all (\<lambda>r. fst r \<noteq> None) reqs" and "distinct (map req_ptr reqs)"
    and "distinct (map (req_ID (heap s)) reqs)"
    and "set (map (req_ID (heap s)) reqs) \<inter> fst ` set (proposals s) = {}"
    and "length (channel s) \<le> channelCap s"
  shows "\<exists>s'. CreateAll s reqs = Inr (map (req_ID (heap s)) reqs, s') \<and>
           proposals s' = proposals s @ map (\<lambda>r. (req_ID (heap s) r, req_ptr r)) reqs \<and>
           channel s' = take (channelCap s) (channel s @ map req_ptr reqs)"
  using assms
proof (induction reqs arbitrary: s)
  case Nil
  then show ?case by simp
next
  case (Cons r rest)
  obtain proposal uuid now1 now2 where r: "r = (proposal, uuid, now1, now2)"
    by (cases r) auto
  from Cons.prems(1) obtain a where a: "proposal = Some a" by (auto simp: r)
  define i where "i = Create_ID (heap s a) uuid"
  have ri: "req_ID (heap s) r = i" and rp: "req_ptr r = a"
    by (simp_all add: req_ID_def req_ptr_def req_uuid_def r a i_def)
  obtain s1 where c: "Create s (Some a) uuid now1 now2 = Inr (i, s1)"
    by (simp add: Create_Some i_def)
  from Create_Inr [OF c]
  have h1: "heap s1 = (heap s)(a := (heap s a)
                 \<lparr>ID := i,
                   CreatedAt := (if IsZero (CreatedAt (heap s a)) then now1 else CreatedAt (heap s a)),
                   UpdatedAt := now2\<rparr>)"
    and p1: "proposals s1 = AList.update i a (proposals s)"
    and c1: "channel s1 = (if length (channel s) < channelCap s then channel s @ [a] else channel s)"
    and cap1: "channelCap s1 = channelCap s"
    by auto
  from Cons.prems(4) have fresh: "i \<notin> fst ` set (proposals s)" by (auto simp: ri)
  with p1 have p1': "proposals s1 = proposals s @ [(i, a)]" by (simp add: update_fresh)
  from Cons.prems(2) have na: "\<forall>r' \<in> set rest. req_ptr r' \<noteq> a" by (auto simp: rp)
  then have same: "map (req_ID (heap s1)) rest = map (req_ID (heap s)) rest"
    by (auto simp: req_ID_def h1)
  from na have same2: "map (\<lambda>r. (req_ID (heap s1) r, req_ptr r)) rest
                      = map (\<lambda>r. (req_ID (heap s) r, req_ptr r)) rest"
    by (auto simp: req_ID_def h1)
  from Cons.prems(5) have t: "channel s1 = take (channelCap s) (channel s @ [a])"
    by (simp add: c1)
  have "\<exists>s'. CreateAll s1 rest = Inr (map (req_ID (heap s1)) rest, s') \<and>
           proposals s' = proposals s1 @ map (\<lambda>r. (req_ID (heap s1) r, req_ptr r)) rest \<and>
           channel s' = take (channelCap s1) (channel s1 @ map req_ptr rest)"
  proof (rule Cons.IH)
    from Cons.prems(1) show "list_all (\<lambda>r. fst r \<noteq> None) rest" by simp
    from Cons.prems(2) show "distinct (map req_ptr rest)" by simp
    from Cons.prems(3) show "distinct (map (req_ID (heap s1)) rest)" by (simp add: same)
    from Cons.prems(3,4) show "set (map (req_ID (heap s1)) rest) \<inter> fst ` set (proposals s1) = {}"
      by (simp only: same) (auto simp: p1' ri)
    from t show "length (channel s1) \<le> channelCap s1" by (simp add: cap1)
  qed
  then obtain s' where r1: "CreateAll s1 rest = Inr (map (req_ID (heap s)) rest, s')"
    and r2: "proposals s' = proposals s1 @ map (\<lambda>r. (req_ID (heap s) r, req_ptr r)) rest"
    and r3: "channel s' = take (channelCap s) (channel s1 @ map req_ptr rest)"
    by (auto simp: same same2 cap1)
  have "CreateAll s (r # rest) = Inr (map (req_ID (heap s)) (r # rest), s')"
    by (simp add: r a c r1 ri [unfolded r a])
  moreover have "proposals s' = proposals s @ map (\<lambda>r. (req_ID (heap s) r, req_ptr r)) (r # rest)"
    by (simp add: r2 p1' ri rp)
  moreover have "channel s' = take (channelCap s) (channel s @ map req_ptr (r # rest))"
    by (simp only: r3 t take_take_append) (simp add: rp)
  ultimately show ?case by blast
qed

lemma hextable_nth_inj:
  "i < 16 \<Longrightarrow> j < 16 \<Longrightarrow> hextable ! i = hextable ! j \<Longrightarrow> i = j"
proof -
  have d: "distinct hextable" and l: "length hextable = 16" by (simp_all add: hextable_def)
  assume "i < 16" "j < 16" "hextable ! i = hextable ! j"
  with d l show "i = j" by (simp add: nth_eq_iff_index_eq)
qed

lemma hex_byte_inj:
  fixes v w :: "8 word"
  assumes "hextable ! (unat v div 16) = hextable ! (unat w div 16)"
    and "hextable ! (unat v mod 16) = hextable ! (unat w mod 16)"
  shows "v = w"
proof -
  have bv: "unat v < 256" and bw: "unat w < 256"
    using unsigned_less [of v, where 'a = nat] unsigned_less [of w, where 'a = nat] by simp_all
  then have "unat v div 16 < 16" "unat w div 16 < 16" by simp_all
  with assms(1) have 1: "unat v div 16 = unat w div 16" by (rule_tac hextable_nth_inj)
  have "unat v mod 16 < 16" "unat w mod 16 < 16" by simp_all
  with assms(2) have 2: "unat v mod 16 = unat w mod 16" by (rule_tac hextable_nth_inj)
  from 1 2 have "unat v = unat w" by (metis div_mult_mod_eq)
  then show ?thesis by (simp add: word_unat_eq_iff)
qed

lemma hexEncode_length: "length (hexEncode xs) = 2 * length xs"
  by (induction xs) simp_all

lemma hexEncode_inj: "length xs = length ys \<Longrightarrow> hexEncode xs = hexEncode ys \<Longrightarrow> xs = ys"
proof (induction xs arbitrary: ys)
  case Nil
  then show ?case by simp
next
  case (Cons v xs)
  then obtain w ys' where ys: "ys = w # ys'" by (cases ys) auto
  from Cons.prems have "v = w" by (simp add: ys hex_byte_inj)
  moreover from Cons.prems have "length xs = length ys'" and "hexEncode xs = hexEncode ys'"
    by (simp_all add: ys)
  then have "xs = ys'" by (rule Cons.IH)
  ultimately show ?case by (simp add: ys)
qed

lemma uuid_parts:
  "u = take 4 u @ take 2 (drop 4 u) @ take 2 (drop 6 u) @ take 2 (drop 8 u) @ drop 10 u"
proof -
  have 1: "drop 8 u = take 2 (drop 8 u) @ drop 10 u"
    using append_take_drop_id [of 2 "drop 8 u"] by simp
  have 2: "drop 6 u = take 2 (drop 6 u) @ drop 8 u"
    using append_take_drop_id [of 2 "drop 6 u"] by simp
  have 3: "drop 4 u = take 2 (drop 4 u) @ drop 6 u"
    using append_take_drop_id [of 2 "drop 4 u"] by simp
  have 4: "u = take 4 u @ drop 4 u" by simp
  from 1 2 3 4 show ?thesis by metis
qed

lemma UUID_String_inj:
  assumes "length u = 16" and "length v = 16" and "UUID_String u = UUID_String v"
  shows "u = v"
proof -
  from assms have
    "hexEncode (take 4 u) = hexEncode (take 4 v) \<and>
     hexEncode (take 2 (drop 4 u)) = hexEncode (take 2 (drop 4 v)) \<and>
     hexEncode (take 2 (drop 6 u)) = hexEncode (take 2 (drop 6 v)) \<and>
     hexEncode (take 2 (drop 8 u)) = hexEncode (take 2 (drop 8 v)) \<and>
     hexEncode (drop 10 u) = hexEncode (drop 10 v)"
    by (simp add: UUID_String_def hexEncode_length)
  with assms(1,2) have
    "take 4 u = take 4 v \<and> take 2 (drop 4 u) = take 2 (drop 4 v) \<and>
     take 2 (drop 6 u) = take 2 (drop 6 v) \<and> take 2 (drop 8 u) = take 2 (drop 8 v) \<and>
     drop 10 u = drop 10 v"
    by (simp add: hexEncode_inj)
  then show ?thesis using uuid_parts [of u] uuid_parts [of v] by simp
qed

lemma new_IDs_distinct:
  assumes "list_all (\<lambda>r. ID (h (req_ptr r)) = [] \<and> length (req_uuid r) = 16) reqs"
    and "distinct (map req_uuid reqs)"
  shows "map (req_ID h) reqs = map (\<lambda>r. UUID_String (req_uuid r)) reqs \<and>
         distinct (map (req_ID h) reqs)"
proof -
  from assms(1) have e: "map (req_ID h) reqs = map (\<lambda>r. UUID_String (req_uuid r)) reqs"
    by (simp add: list_all_iff req_ID_def Create_ID_def)
  have "inj_on UUID_String (set (map req_uuid reqs))"
    using assms(1) by (auto simp: inj_on_def list_all_iff intro: UUID_String_inj)
  with assms(2) have "distinct (map UUID_String (map req_uuid reqs))"
    by (simp only: distinct_map)
  then have "distinct (map (\<lambda>r. UUID_String (req_uuid r)) reqs)" by (simp add: comp_def)
  with e show ?thesis by (simp only: simp_thms)
qed

text \<open>
  Claim C3, as stated, says that after eleven calls of \<open>Create\<close> the store returns
  eleven proposals. \<open>Create\<close> keeps the identifier a proposal brings and stores under
  it: eleven different proposals that all carry the identifier \<open>x\<close> leave one entry in
  the map, the last proposal, while ten notifications are in the channel.
\<close>

theorem Create_same_ID_counterexample:
  "\<exists>ids s'. CreateAll (NewProposalService demo_same) demo_reqs = Inr (ids, s') \<and>
      length demo_reqs = 11 \<and> distinct (map req_ptr demo_reqs) \<and>
      length (channel s') = 10 \<and> GetAll s' = [10] \<and> length (GetAll s') \<noteq> 11"
  by (simp add: demo_reqs_def demo_same_def demo_literal_def req_ptr_def CreateAll_Some Create_Some
        Create_ID_def NewProposalService_def IsZero_def GetAll_def
        del: CreateAll.simps(2))

text \<open>
  Claim C3, amended. The channel of a new service has capacity 10. \<open>Create\<close> on a
  non-nil proposal always returns, with the proposal stored under the identifier
  returned; the notification is sent when the channel has room and dropped otherwise.
  After any number of calls on a new service with nothing read from the channel, the
  channel holds the notifications of the first ten calls, so ten after eleven calls.
  When the proposals are pairwise different pointers and the identifiers they get (the
  one a proposal brings, or the string of the uuid drawn for it when it brings none)
  are pairwise different, the calls return these identifiers and \<open>GetAll\<close> returns
  every proposal exactly once, so eleven after eleven calls. That is the case when
  every proposal comes without an identifier and the uuids drawn, of 16 bytes each, are
  pairwise different.
\<close>

theorem Create_stores_and_notifies:
  "channelCap (NewProposalService h) = 10 \<and>
   (\<exists>i s'. Create s (Some a) uuid now1 now2 = Inr (i, s') \<and> Get s' i = Some a \<and>
        channel s' = (if length (channel s) < channelCap s then channel s @ [a] else channel s)) \<and>
   (list_all (\<lambda>r. fst r \<noteq> None) reqs \<longrightarrow>
      (\<exists>ids s'. CreateAll (NewProposalService h) reqs = Inr (ids, s') \<and>
         channel s' = map req_ptr (take 10 reqs) \<and>
         length (channel s') = min 10 (length reqs) \<and>
         set (map fst (proposals s')) = set ids)) \<and>
   (list_all (\<lambda>r. fst r \<noteq> None) reqs \<and> distinct (map req_ptr reqs) \<and>
    distinct (map (req_ID h) reqs) \<longrightarrow>
      (\<exists>s'. CreateAll (NewProposalService h) reqs = Inr (map (req_ID h) reqs, s') \<and>
         set (GetAll s') = set (map req_ptr reqs) \<and> distinct (GetAll s') \<and>
         length (GetAll s') = length reqs)) \<and>
   (list_all (\<lambda>r. fst r \<noteq> None \<and> ID (h (req_ptr r)) = [] \<and> length (req_uuid r) = 16) reqs \<and>
    distinct (map req_ptr reqs) \<and> distinct (map req_uuid reqs) \<longrightarrow>
      (\<exists>s'. CreateAll (NewProposalService h) reqs
               = Inr (map (\<lambda>r. UUID_String (req_uuid r)) reqs, s') \<and>
         set (GetAll s') = set (map req_ptr reqs) \<and> distinct (GetAll s') \<and>
         length (GetAll s') = length reqs))"
proof (intro conjI impI)
  show "channelCap (NewProposalService h) = 10" by (simp add: NewProposalService_def)
next
  show "\<exists>i s'. Create s (Some a) uuid now1 now2 = Inr (i, s') \<and> Get s' i = Some a \<and>
        channel s' = (if length (channel s) < channelCap s then channel s @ [a] else channel s)"
    by (simp add: Create_Some Get_def map_of_update_same)
next
  assume "list_all (\<lambda>r. fst r \<noteq> None) reqs"
  then obtain ids s' where c: "CreateAll (NewProposalService h) reqs = Inr (ids, s')"
    using CreateAll_total by blast
  let ?s = "NewProposalService h"
  have s0: "proposals ?s = []" "channel ?s = []" "channelCap ?s = 10"
    by (simp_all add: NewProposalService_def)
  from c CreateAll_props [of ?s reqs ids s']
  have keys: "fst ` set (proposals s') = set ids"
    and ch: "channel s' = take 10 (map (\<lambda>r. the (fst r)) reqs)"
    by (simp_all add: s0)
  from ch have c2: "channel s' = map req_ptr (take 10 reqs)"
    by (simp add: take_map req_ptr_def)
  then have "length (channel s') = min 10 (length reqs)" by (simp add: min.commute)
  with c c2 keys
  show "\<exists>ids s'. CreateAll (NewProposalService h) reqs = Inr (ids, s') \<and>
         channel s' = map req_ptr (take 10 reqs) \<and>
         length (channel s') = min 10 (length reqs) \<and>
         set (map fst (proposals s')) = set ids"
    by auto
next
  assume A: "list_all (\<lambda>r. fst r \<noteq> None) reqs \<and> distinct (map req_ptr reqs) \<and>
             distinct (map (req_ID h) reqs)"
  let ?s = "NewProposalService h"
  have s0: "proposals ?s = []" "channel ?s = []" "channelCap ?s = 10" "heap ?s = h"
    by (simp_all add: NewProposalService_def)
  from A CreateAll_fresh [of reqs ?s]
  obtain s' where c: "CreateAll ?s reqs = Inr (map (req_ID h) reqs, s')"
    and p: "proposals s' = map (\<lambda>r. (req_ID h r, req_ptr r)) reqs"
    by (auto simp: s0)
  from p have g: "GetAll s' = map req_ptr reqs" by (simp add: GetAll_def comp_def)
  from c show "\<exists>s'. CreateAll (NewProposalService h) reqs = Inr (map (req_ID h) reqs, s') \<and>
         set (GetAll s') = set (map req_ptr reqs) \<and> distinct (GetAll s') \<and>
         length (GetAll s') = length reqs"
    using A by (simp add: g)
next
  assume B: "list_all (\<lambda>r. fst r \<noteq> None \<and> ID (h (req_ptr r)) = [] \<and> length (req_uuid r) = 16) reqs \<and>
             distinct (map req_ptr reqs) \<and> distinct (map req_uuid reqs)"
  then have "list_all (\<lambda>r. ID (h (req_ptr r)) = [] \<and> length (req_uuid r) = 16) reqs"
    and n: "list_all (\<lambda>r. fst r \<noteq> None) reqs"
    by (simp_all add: list_all_iff)
  with B new_IDs_distinct [of h reqs]
  have e: "map (req_ID h) reqs = map (\<lambda>r. UUID_String (req_uuid r)) reqs"
    and d: "distinct (map (req_ID h) reqs)"
    by simp_all
  let ?s = "NewProposalService h"
  have s0: "proposals ?s = []" "channel ?s = []" "channelCap ?s = 10" "heap ?s = h"
    by (simp_all add: NewProposalService_def)
  from B n d CreateAll_fresh [of reqs ?s]
  obtain s' where c: "CreateAll ?s reqs = Inr (map (req_ID h) reqs, s')"
    and p: "proposals s' = map (\<lambda>r. (req_ID h r, req_ptr r)) reqs"
    by (auto simp: s0)
  from p have g: "GetAll s' = map req_ptr reqs" by (simp add: GetAll_def comp_def)
  from c show "\<exists>s'. CreateAll (NewProposalService h) reqs
               = Inr (map (\<lambda>r. UUID_String (req_uuid r)) reqs, s') \<and>
         set (GetAll s') = set (map req_ptr reqs) \<and> distinct (GetAll s') \<and>
         length (GetAll s') = length reqs"
    using B by (simp add: g e)
qed

lemma demo_reqs_IDs:
  "map (\<lambda>r. UUID_String (req_uuid r)) demo_reqs = demo_ids"
  by (simp add: demo_reqs_def demo_ids_def req_uuid_def demo_uuid_String_variant hextable_def)

theorem Create_stores_and_notifies_witness:
  "\<exists>s'. CreateAll (NewProposalService (\<lambda>a. NewProposal ''risk'' ''title'' ''summary'' Map.empty 3 4))
           demo_reqs = Inr (demo_ids, s') \<and>
        set (GetAll s') = set [0, 1, 2, 3, 4, 5, 6, 7, 8, 9, 10] \<and> length (GetAll s') = 11"
proof -
  let ?h = "\<lambda>a::addr. NewProposal ''risk'' ''title'' ''summary'' Map.empty 3 4"
  have 1: "list_all (\<lambda>r. fst r \<noteq> None \<and> ID (?h (req_ptr r)) = [] \<and> length (req_uuid r) = 16) demo_reqs"
    by (simp add: demo_reqs_def NewProposal_def req_uuid_def demo_uuid_def)
  have 2: "distinct (map req_ptr demo_reqs)" by (simp add: demo_reqs_def req_ptr_def)
  have 3: "distinct (map req_uuid demo_reqs)" by (simp add: demo_reqs_def req_uuid_def)
  have 4: "map req_ptr demo_reqs = [0, 1, 2, 3, 4, 5, 6, 7, 8, 9, 10]"
    by (simp add: demo_reqs_def req_ptr_def)
  have 5: "length demo_reqs = 11" by (simp add: demo_reqs_def)
  from 1 2 3 Create_stores_and_notifies [of ?h "NewProposalService ?h" 0 demo_uuid 0 0 demo_reqs]
  have "\<exists>s'. CreateAll (NewProposalService ?h) demo_reqs
               = Inr (map (\<lambda>r. UUID_String (req_uuid r)) demo_reqs, s') \<and>
         set (GetAll s') = set (map req_ptr demo_reqs) \<and> distinct (GetAll s') \<and>
         length (GetAll s') = length demo_reqs"
    by blast
  then show ?thesis by (simp only: demo_reqs_IDs 4 5) blast
qed

section \<open>The interval of a schedule\<close>




















































section \<open>Substitution and the order of the parameters\<close>

text \<open>
  Claim C5 says that the result of the substitution does not depend on the order in
  which the parameters are visited, and that a placeholder whose name is not in the
  mapping stays as it is. The \<open>$name\<close> spelling is replaced wherever it occurs, also at
  the start of a longer name. In the body of \<open>save_api_analysis\<close>, with the parameters
  \<open>importance\<close> and \<open>importance_analysis\<close>, visiting \<open>importance\<close> first turns
  \<open>$importance_analysis\<close> into \<open>high_analysis\<close>, and visiting it last gives \<open>deep\<close>; with
  \<open>importance\<close> alone, the placeholder \<open>$importance_analysis\<close>, whose name is not in the
  mapping, is rewritten all the same.
\<close>

theorem replaceParams_order_dependent:
  \<open>SheikahAPI_replaceParams (\<lambda>m. m) save_api_analysis_Body
      ''importance=high,importance_analysis=deep'' =
     ''{"host": "$host", "method": "$method", "path": "$path", "biz_analysis": "$biz_analysis", "importance_analysis": "high_analysis", "param_analysis": "$param_analysis", "importance": "high", "skip_if_exist": true}'' \<and>
   SheikahAPI_replaceParams rev save_api_analysis_Body
      ''importance=high,importance_analysis=deep'' =
     ''{"host": "$host", "method": "$method", "path": "$path", "biz_analysis": "$biz_analysis", "importance_analysis": "deep", "param_analysis": "$param_analysis", "importance": "high", "skip_if_exist": true}'' \<and>
   QueryData_replaceParams (\<lambda>m. m) ''WHERE a = '$importance_analysis' LIMIT {{n}}'' ''importance=high'' =
     ''WHERE a = 'high_analysis' LIMIT {{n}}''\<close>
  by code_simp

section \<open>Stopping twice\<close>

lemma closeAll_closed:
  "closeAll acts = Inr acts' \<Longrightarrow> acts \<noteq> [] \<Longrightarrow> closeAll acts' = Inl CloseOfClosedChannel"
  by (cases acts) (auto split: if_splits sum.splits)

lemma Stop_not_started:
  "activities sv = [] \<Longrightarrow>
   Stop (Some sv) = Inr (Some (sv\<lparr>ctx_Done := True, wg := 0, queryTool := Close (queryTool sv),
                                  apiTool := Close (apiTool sv)\<rparr>))"
  by (simp add: Stop_def)

lemma Stop_nil: "Stop None = Inr None"
  by (simp add: Stop_def)

lemma Stop_again_panics:
  assumes "Stop (Some sv) = Inr (Some sv')" and "activities sv \<noteq> []"
  shows "Stop (Some sv') = Inl CloseOfClosedChannel"
proof -
  from assms(1) obtain acts where c: "closeAll (activities sv) = Inr acts"
    and a: "activities sv' = acts"
    by (auto simp: Stop_def split: sum.splits)
  from c assms(2) have "closeAll acts = Inl CloseOfClosedChannel" by (rule closeAll_closed)
  with a show ?thesis by (simp add: Stop_def)
qed

text \<open>
  Claim C7 says that \<open>Stop\<close> is idempotent. On a service that was never started, and
  on a nil service, \<open>Stop\<close> closes no channel and returns (the lemmas above). On a
  service that was started with an enabled activity the first \<open>Stop\<close> returns with the
  wait group at 0, and a second \<open>Stop\<close> closes the activity's channel again and panics.
\<close>

theorem Stop_twice_panics:
  "\<exists>sv. Start (Some demo_service) = Some sv \<and> activities sv = [(''risk_analysis'', False)] \<and>
        wg sv = 1 \<and>
        (\<exists>sv'. Stop (Some sv) = Inr (Some sv') \<and> wg sv' = 0 \<and>
               Stop (Some sv') = Inl CloseOfClosedChannel)"
  by (simp add: Start_def startActivity_def demo_service_def Stop_def Close_def)

end
